theory Spec2Isabelle
  imports Complex_Main "HOL-Library.Sublist" "HOL-Library.AList" "HOL-Library.Multiset"
begin

section \<open>Python strings\<close>

text \<open>
  A Python \<open>str\<close> is a sequence of code points. A \<^typ>\<open>char\<close> stands for one code
  point below 256 (the Latin-1 range), so \<^const>\<open>length\<close> counts what \<open>len\<close> counts.
  The character tests below follow the Unicode tables on that range.
\<close>

definition in_range :: "nat \<Rightarrow> nat \<Rightarrow> char \<Rightarrow> bool" where
  "in_range lo hi c = (lo \<le> of_char c \<and> (of_char c :: nat) \<le> hi)"

definition ascii_upper :: "char \<Rightarrow> bool" where
  "ascii_upper c = in_range 65 90 c"

definition ascii_lower :: "char \<Rightarrow> bool" where
  "ascii_lower c = in_range 97 122 c"

definition ascii_digit :: "char \<Rightarrow> bool" where
  "ascii_digit c = in_range 48 57 c"

text \<open>The regular-expression class \<open>[a-z0-9]\<close>.\<close>

definition lower_alnum :: "char \<Rightarrow> bool" where
  "lower_alnum c = (ascii_lower c \<or> ascii_digit c)"

text \<open>The regular-expression class \<open>[a-zA-Z0-9]\<close>.\<close>

definition re_alnum :: "char \<Rightarrow> bool" where
  "re_alnum c = (ascii_lower c \<or> ascii_upper c \<or> ascii_digit c)"

text \<open>The regular-expression class \<open>[a-zA-Z0-9._-]\<close>.\<close>

definition re_alnum_sep :: "char \<Rightarrow> bool" where
  "re_alnum_sep c = (re_alnum c \<or> c = CHR ''.'' \<or> c = CHR ''_'' \<or> c = CHR ''-'')"

text \<open>
  \<open>str.lower\<close>: on the Latin-1 range the letters with a lowercase form are A-Z and
  U+00C0 .. U+00DE without the multiplication sign U+00D7; each moves up by 32.
\<close>

definition lower_char :: "char \<Rightarrow> char" where
  "lower_char c =
     (if ascii_upper c \<or> (in_range 192 222 c \<and> of_char c \<noteq> (215::nat))
      then char_of (of_char c + (32::nat)) else c)"

definition py_lower :: "string \<Rightarrow> string" where
  "py_lower s = map lower_char s"

text \<open>
  \<open>str.isalnum\<close> on one character: the ASCII letters and digits, the Latin-1 letters
  (U+00AA, U+00B5, U+00BA, U+00C0 .. U+00FF without U+00D7 and U+00F7) and the
  numeric characters U+00B2, U+00B3, U+00B9, U+00BC .. U+00BE.
\<close>

definition py_isalnum :: "char \<Rightarrow> bool" where
  "py_isalnum c =
     (re_alnum c \<or> of_char c \<in> {170, 178, 179, 181, 185, 186, 188, 189, 190 :: nat}
      \<or> (in_range 192 255 c \<and> of_char c \<noteq> (215::nat) \<and> of_char c \<noteq> (247::nat)))"

text \<open>\<open>str.isspace\<close> on one character.\<close>

definition py_isspace :: "char \<Rightarrow> bool" where
  "py_isspace c =
     (in_range 9 13 c \<or> in_range 28 32 c \<or> of_char c = (133::nat) \<or> of_char c = (160::nat))"

text \<open>\<open>str.strip()\<close> removes the white space at both ends.\<close>

definition py_strip :: "string \<Rightarrow> string" where
  "py_strip s = rev (dropWhile py_isspace (rev (dropWhile py_isspace s)))"

text \<open>
  \<open>s.replace(old, new)\<close> for a non-empty \<open>old\<close>: the occurrences are found from the
  left and do not overlap. The source never passes an empty \<open>old\<close>; the model leaves the
  string unchanged there.
\<close>

function py_replace :: "string \<Rightarrow> string \<Rightarrow> string \<Rightarrow> string" where
  "py_replace old new [] = []"
| "py_replace old new (c # cs) =
     (if old \<noteq> [] \<and> prefix old (c # cs)
      then new @ py_replace old new (drop (length old) (c # cs))
      else c # py_replace old new cs)"
  by pat_completeness auto
termination
  by (relation "measure (\<lambda>(old, new, s). length s)") auto

text \<open>\<open>sub in s\<close> on strings: \<open>sub\<close> occurs in \<open>s\<close> as a contiguous block.\<close>

fun py_in :: "string \<Rightarrow> string \<Rightarrow> bool" where
  "py_in sub [] = (sub = [])"
| "py_in sub (c # cs) = (prefix sub (c # cs) \<or> py_in sub cs)"

section \<open>Iteration order of a Python set\<close>

text \<open>
  The order in which a \<open>set\<close> of strings is iterated depends on the hash values of the
  interpreter process. It is a parameter \<open>iter\<close> of the model: it takes the sequence of
  insertions and returns the elements in the order of iteration. All that is known of it
  is that every element comes once.
\<close>

definition set_order :: "(string list \<Rightarrow> string list) \<Rightarrow> bool" where
  "set_order iter = (\<forall>xs. distinct (iter xs) \<and> set (iter xs) = set xs)"

text \<open>One such order: the elements in the order of their first insertion.\<close>

definition insertion_order :: "string list \<Rightarrow> string list" where
  "insertion_order xs = rev (remdups (rev xs))"

section \<open>Username generation, \<open>python/sherlock_business_search.py\<close>\<close>

definition clean_name :: "string \<Rightarrow> string" where
  "clean_name bname = filter re_alnum (py_lower bname)"

definition base_variations :: "string \<Rightarrow> string list" where
  "base_variations bname =
     [py_replace '' '' [] (py_lower bname),
      py_replace '' '' ''_'' (py_lower bname),
      py_replace '' '' ''.'' (py_lower bname),
      py_replace '' '' ''-'' (py_lower bname)]"

definition business_affixes :: "string list" where
  "business_affixes = [''official'', ''real'', ''team'', ''hq'', ''inc'', ''corp'', ''company'']"

definition affix_variants :: "string \<Rightarrow> string \<Rightarrow> string list" where
  "affix_variants cn affix = [cn @ affix, affix @ cn, cn @ ''_'' @ affix, affix @ ''_'' @ cn]"

text \<open>The strings added to the set \<open>usernames\<close>, in the order of the \<open>add\<close> calls.\<close>

definition username_insertions :: "string \<Rightarrow> string list" where
  "username_insertions bname =
     clean_name bname
     # filter (\<lambda>v. v \<noteq> []) (map (filter re_alnum_sep) (base_variations bname))
     @ concat (map (affix_variants (clean_name bname)) business_affixes)"

text \<open>
  The score is a Python float; every value it takes is a multiple of one half of small
  magnitude, which a float holds exactly, so it is modelled as a rational.
\<close>

definition username_score :: "string \<Rightarrow> string \<Rightarrow> rat" where
  "username_score uname original_name =
     (let original_clean = filter re_alnum (py_lower original_name) in
        (if uname = original_clean then 100 else 0)
      + (if length uname = length original_clean then 20 else 0)
      + (if py_in original_clean uname then 50 else 0)
      - of_nat (length uname) / 2
      + (if \<not> list_ex (\<lambda>affix. py_in affix uname) [''official'', ''real'', ''team'']
         then 10 else 0))"

text \<open>
  \<open>sorted(valid_usernames, key=...)\<close> is a stable ascending sort, as \<^const>\<open>sort_key\<close>
  is; the slice \<open>[:10]\<close> keeps its first ten elements.
\<close>

definition generate_business_usernames :: "(string list \<Rightarrow> string list) \<Rightarrow> string \<Rightarrow> string list" where
  "generate_business_usernames iter bname =
     (let valid_usernames =
            filter (\<lambda>u. length u \<ge> 3 \<and> length u \<le> 30) (iter (username_insertions bname))
      in take 10 (sort_key (\<lambda>x. username_score x bname) valid_usernames))"

section \<open>Username generation, \<open>netlify/functions/sherlock-search/main.py\<close>\<close>

text \<open>
  Both files define \<open>generate_business_usernames\<close>. The one of the function file, and the
  values it computes on the way, carry the prefix \<open>fn_\<close> here.
\<close>

definition business_words :: "string list" where
  "business_words = [''inc'', ''llc'', ''ltd'', ''corp'', ''company'', ''co'', ''group'', ''agency'']"

text \<open>The loop \<open>for word in business_words: clean_name = clean_name.replace(word, '').strip()\<close>.\<close>

fun remove_words :: "string list \<Rightarrow> string \<Rightarrow> string" where
  "remove_words [] cn = cn"
| "remove_words (word # ws) cn = remove_words ws (py_strip (py_replace word [] cn))"

definition fn_clean_name :: "string \<Rightarrow> string" where
  "fn_clean_name bname = remove_words business_words (py_strip (py_lower bname))"

definition fn_base :: "string \<Rightarrow> string" where
  "fn_base bname = filter py_isalnum (fn_clean_name bname)"

definition fn_usernames :: "string \<Rightarrow> string list" where
  "fn_usernames bname =
     (let cn = fn_clean_name bname; base = fn_base bname in
      [base,
       py_replace '' '' [] cn,
       py_replace '' '' ''_'' cn,
       py_replace '' '' ''-'' cn,
       base @ ''official'',
       ''official'' @ base,
       base @ ''inc'',
       base @ ''co''])"

definition fn_generate_business_usernames :: "(string list \<Rightarrow> string list) \<Rightarrow> string \<Rightarrow> string list" where
  "fn_generate_business_usernames iter bname =
     take 5 (iter (filter (\<lambda>u. u \<noteq> [] \<and> length u \<ge> 2) (fn_usernames bname)))"

section \<open>Splitting and printing\<close>

text \<open>
  \<open>s.split(sep)\<close> for a non-empty separator, and \<open>s.split()\<close>, which cuts at runs of
  white space and returns no empty string.
\<close>

function split_from :: "string \<Rightarrow> string \<Rightarrow> string \<Rightarrow> string list" where
  "split_from sep acc [] = [rev acc]"
| "split_from sep acc (c # cs) =
     (if sep \<noteq> [] \<and> prefix sep (c # cs)
      then rev acc # split_from sep [] (drop (length sep) (c # cs))
      else split_from sep (c # acc) cs)"
  by pat_completeness auto
termination
  by (relation "measure (\<lambda>(sep, acc, s). length s)") auto

definition py_split :: "string \<Rightarrow> string \<Rightarrow> string list" where
  "py_split sep s = split_from sep [] s"

fun split_ws_from :: "string \<Rightarrow> string \<Rightarrow> string list" where
  "split_ws_from acc [] = (if acc = [] then [] else [rev acc])"
| "split_ws_from acc (c # cs) =
     (if py_isspace c
      then (if acc = [] then split_ws_from [] cs else rev acc # split_ws_from [] cs)
      else split_ws_from (c # acc) cs)"

definition py_split_ws :: "string \<Rightarrow> string list" where
  "py_split_ws s = split_ws_from [] s"

text \<open>The decimal form of a natural number, as an f-string prints it.\<close>

function str_nat :: "nat \<Rightarrow> string" where
  "str_nat n = (if n < 10 then [char_of (48 + n)] else str_nat (n div 10) @ [char_of (48 + n mod 10)])"
  by pat_completeness auto
termination
  by (relation "measure id") auto

section \<open>Profiles\<close>

text \<open>
  The profile dictionaries of both files; the field \<open>id\<close> is \<open>profile_id\<close> here. The
  confidence is a float in the source, computed as \<open>min(0.9, relevance / 100)\<close> or given
  as the literal 0.7 or 0.9; it is modelled as a rational number.
\<close>

record profile =
  profile_id :: string
  name :: string
  platform :: string
  profile_url :: string
  username :: string
  verified :: bool
  confidence :: rat
  relevance_score :: int

record osint_profile = profile +
  source :: string
  search_method :: string

record 'p search_result =
  profiles :: "'p list"
  total_profiles_found :: nat
  searched_usernames :: "string list"

section \<open>Ranking, \<open>python/sherlock_business_search.py\<close>\<close>

text \<open>What the parsers store for one hit; \<open>verified\<close> is read with \<open>.get('verified', False)\<close>.\<close>

record profile_data =
  pd_url :: string
  pd_username :: string
  pd_platform :: string
  pd_verified :: "bool option"
  pd_source :: string

definition platform_priority :: "(string \<times> int) list" where
  "platform_priority =
     [(''linkedin'', 30), (''instagram'', 25), (''facebook'', 20),
      (''twitter'', 15), (''youtube'', 10), (''tiktok'', 5)]"

definition calculate_relevance :: "string \<Rightarrow> string \<Rightarrow> string \<Rightarrow> int" where
  "calculate_relevance uname bname pform =
     (let business_clean = filter re_alnum (py_lower bname);
          score1 = (if uname = business_clean then 100
                    else if py_in business_clean uname then 70
                    else if list_ex (\<lambda>word. py_in word uname) (py_split_ws business_clean) then 40
                    else 0);
          score2 = score1 + (case map_of platform_priority pform of Some b \<Rightarrow> b | None \<Rightarrow> 0);
          score3 = (if length uname > 20 then score2 - 10 else score2)
      in max 0 score3)"

text \<open>
  \<open>hash(url)\<close> is the string hash of the interpreter process, a parameter \<open>str_hash\<close>.
  Python's \<open>%\<close> with a positive modulus is never negative, as \<^const>\<open>modulo\<close> on
  \<^typ>\<open>int\<close>.
\<close>

definition processed_profile ::
  "(string \<Rightarrow> int) \<Rightarrow> string \<Rightarrow> string \<Rightarrow> string \<Rightarrow> profile_data \<Rightarrow> osint_profile" where
  "processed_profile str_hash bname uname pform pd =
     (let relevance = calculate_relevance uname bname pform in
      \<lparr> profile_id = ''sherlock_'' @ pform @ ''_'' @ str_nat (nat (str_hash (pd_url pd) mod 100000)),
        name = bname,
        platform = pform,
        profile_url = pd_url pd,
        username = uname,
        verified = (case pd_verified pd of Some v \<Rightarrow> v | None \<Rightarrow> False),
        confidence = min (9 / 10) (of_int relevance / 100),
        relevance_score = relevance,
        source = ''sherlock_osint'',
        search_method = ''osint'' \<rparr>)"

text \<open>
  The two nested loops of \<open>process_results\<close>. A dictionary is an association list in
  insertion order, which is the order of \<open>.items()\<close>; the state is the list \<open>processed\<close>
  and the set \<open>seen_urls\<close>.
\<close>

fun process_profiles ::
  "(string \<Rightarrow> int) \<Rightarrow> string \<Rightarrow> string \<Rightarrow> (string \<times> profile_data) list \<Rightarrow>
   osint_profile list \<times> string set \<Rightarrow> osint_profile list \<times> string set" where
  "process_profiles str_hash bname uname [] st = st"
| "process_profiles str_hash bname uname ((pform, pd) # rest) (processed, seen_urls) =
     (if pd_url pd \<in> seen_urls
      then process_profiles str_hash bname uname rest (processed, seen_urls)
      else process_profiles str_hash bname uname rest
             (processed @ [processed_profile str_hash bname uname pform pd],
              insert (pd_url pd) seen_urls))"

fun process_usernames ::
  "(string \<Rightarrow> int) \<Rightarrow> string \<Rightarrow> (string \<times> (string \<times> profile_data) list) list \<Rightarrow>
   osint_profile list \<times> string set \<Rightarrow> osint_profile list \<times> string set" where
  "process_usernames str_hash bname [] st = st"
| "process_usernames str_hash bname ((uname, profs) # rest) st =
     process_usernames str_hash bname rest (process_profiles str_hash bname uname profs st)"

text \<open>
  \<open>list.sort(key=..., reverse=True)\<close> reverses the list, sorts it ascending and stably,
  and reverses it again, so equal keys keep their order.
\<close>

definition sort_reverse :: "('a \<Rightarrow> 'k::linorder) \<Rightarrow> 'a list \<Rightarrow> 'a list" where
  "sort_reverse key xs = rev (sort_key key (rev xs))"

definition process_results ::
  "(string \<Rightarrow> int) \<Rightarrow> (string \<times> (string \<times> profile_data) list) list \<Rightarrow> string \<Rightarrow> osint_profile list" where
  "process_results str_hash all_results bname =
     take 20 (sort_reverse relevance_score
                (fst (process_usernames str_hash bname all_results ([], {}))))"

section \<open>The search of \<open>python/sherlock_business_search.py\<close>\<close>

text \<open>
  The body of the \<open>try\<close> in \<open>sherlock_search\<close> runs the external tool, reads its output
  file and probes the network. It is a parameter \<open>run\<close> of the model, which either returns
  the dictionary of hits or raises.
\<close>

datatype try_outcome =
    Returned "(string \<times> profile_data) list"
  | Raised_TimeoutExpired
  | Raised_Exception

definition sherlock_search ::
  "(string \<Rightarrow> string list option \<Rightarrow> try_outcome) \<Rightarrow> string \<Rightarrow> string list option \<Rightarrow>
   (string \<times> profile_data) list" where
  "sherlock_search run uname target_platforms =
     (case run uname target_platforms of
        Returned hits \<Rightarrow> hits
      | Raised_TimeoutExpired \<Rightarrow> []
      | Raised_Exception \<Rightarrow> [])"

text \<open>The loop \<open>for username in usernames\<close>; \<open>all_results[username] = results\<close> is \<^const>\<open>AList.update\<close>.\<close>

fun search_usernames ::
  "(string \<Rightarrow> string list option \<Rightarrow> try_outcome) \<Rightarrow> string list option \<Rightarrow> string list \<Rightarrow>
   (string \<times> (string \<times> profile_data) list) list \<Rightarrow> (string \<times> (string \<times> profile_data) list) list" where
  "search_usernames run platforms [] all_results = all_results"
| "search_usernames run platforms (uname # rest) all_results =
     (let results = sherlock_search run uname platforms in
      search_usernames run platforms rest
        (if results \<noteq> [] then AList.update uname results all_results else all_results))"

record osint_result = "osint_profile search_result" +
  success :: bool
  business_name :: string
  result_search_method :: string

text \<open>
  No operation inside the \<open>try\<close> of \<open>search_business_profiles\<close> raises on strings, so
  its \<open>except\<close> branch is never taken and the result always has \<open>success = True\<close>.
\<close>

definition search_business_profiles ::
  "(string list \<Rightarrow> string list) \<Rightarrow> (string \<Rightarrow> int) \<Rightarrow> (string \<Rightarrow> string list option \<Rightarrow> try_outcome) \<Rightarrow>
   string \<Rightarrow> string list option \<Rightarrow> osint_result" where
  "search_business_profiles iter str_hash run bname platforms =
     (let usernames = generate_business_usernames iter bname;
          all_results = search_usernames run platforms usernames [];
          processed_results = process_results str_hash all_results bname
      in \<lparr> profiles = processed_results,
           total_profiles_found = length processed_results,
           searched_usernames = usernames,
           success = True,
           business_name = bname,
           result_search_method = ''sherlock_osint'' \<rparr>)"

section \<open>The search of \<open>netlify/functions/sherlock-search/main.py\<close>\<close>

fun parse_lines :: "string \<Rightarrow> string \<Rightarrow> string list \<Rightarrow> profile list" where
  "parse_lines uname bname [] = []"
| "parse_lines uname bname (raw_line # rest) =
     (let line = py_strip raw_line; parts = py_split '': '' line in
      if line \<noteq> [] \<and> py_in ''http'' line \<and> py_in ''[+]'' line \<and> length parts \<ge> 2
      then \<lparr> profile_id = py_lower (py_strip (py_replace ''[+]'' [] (parts ! 0))) @ ''_'' @ uname,
             name = bname,
             platform = py_lower (py_strip (py_replace ''[+]'' [] (parts ! 0))),
             profile_url = py_strip (parts ! 1),
             username = uname,
             verified = False,
             confidence = 9 / 10,
             relevance_score = 85 \<rparr> # parse_lines uname bname rest
      else parse_lines uname bname rest)"

definition parse_sherlock_output :: "string \<Rightarrow> string \<Rightarrow> string \<Rightarrow> profile list" where
  "parse_sherlock_output output uname bname = parse_lines uname bname (py_split [CHR 0x0A] output)"

text \<open>The dictionary \<open>platforms\<close> of \<open>generate_fallback_profiles\<close>, in insertion order.\<close>

definition fallback_platforms :: "string \<Rightarrow> (string \<times> string) list" where
  "fallback_platforms uname =
     [(''instagram'', ''https://instagram.com/'' @ uname),
      (''facebook'', ''https://facebook.com/'' @ uname),
      (''linkedin'', ''https://www.linkedin.com/company/'' @ uname),
      (''twitter'', ''https://x.com/'' @ uname),
      (''tiktok'', ''https://www.tiktok.com/@'' @ uname),
      (''youtube'', ''https://www.youtube.com/@'' @ uname)]"

definition generate_fallback_profiles :: "string \<Rightarrow> string \<Rightarrow> profile list" where
  "generate_fallback_profiles uname bname =
     map (\<lambda>(pform, url).
            \<lparr> profile_id = pform @ ''_'' @ uname,
              name = bname,
              platform = pform,
              profile_url = url,
              username = uname,
              verified = False,
              confidence = 7 / 10,
              relevance_score = 75 \<rparr>)
         (fallback_platforms uname)"

definition generate_fallback_search :: "string \<Rightarrow> string list option \<Rightarrow> profile search_result" where
  "generate_fallback_search bname target_platforms =
     (let uname = filter py_isalnum (py_lower bname);
          profs = generate_fallback_profiles uname bname
      in \<lparr> profiles = profs, total_profiles_found = length profs, searched_usernames = [uname] \<rparr>)"

text \<open>
  \<open>subprocess.run\<close> is a parameter \<open>run\<close> of the model: the process completes with a
  return code and its standard output, or the call raises \<open>TimeoutExpired\<close>,
  \<open>FileNotFoundError\<close> or another exception.
\<close>

datatype run_outcome =
    Completed int string
  | TimeoutExpired
  | FileNotFoundError
  | Other_Exception

text \<open>
  The loop \<open>for username in usernames\<close> with its state \<open>all_profiles\<close> and
  \<open>searched_usernames\<close>. The inner \<open>except\<close> catches two exceptions only; any other one
  leaves the loop (the value \<open>None\<close>) and reaches the outer \<open>except\<close>.
\<close>

fun search_loop ::
  "(string \<Rightarrow> run_outcome) \<Rightarrow> string \<Rightarrow> string list \<Rightarrow> profile list \<times> string list \<Rightarrow>
   (profile list \<times> string list) option" where
  "search_loop run bname [] st = Some st"
| "search_loop run bname (uname # rest) (all_profiles, searched) =
     (case run uname of
        Completed returncode out \<Rightarrow>
          search_loop run bname rest
            (if returncode = 0 then all_profiles @ parse_sherlock_output out uname bname
             else all_profiles,
             searched @ [uname])
      | TimeoutExpired \<Rightarrow>
          search_loop run bname rest
            (all_profiles @ generate_fallback_profiles uname bname, searched @ [uname])
      | FileNotFoundError \<Rightarrow>
          search_loop run bname rest
            (all_profiles @ generate_fallback_profiles uname bname, searched @ [uname])
      | Other_Exception \<Rightarrow> None)"

definition execute_sherlock_search ::
  "(string list \<Rightarrow> string list) \<Rightarrow> (string \<Rightarrow> run_outcome) \<Rightarrow> string \<Rightarrow> string list option \<Rightarrow>
   profile search_result" where
  "execute_sherlock_search iter run bname target_platforms =
     (case search_loop run bname (fn_generate_business_usernames iter bname) ([], []) of
        Some (all_profiles, searched) \<Rightarrow>
          \<lparr> profiles = take 20 all_profiles,
            total_profiles_found = length all_profiles,
            searched_usernames = searched \<rparr>
      | None \<Rightarrow> generate_fallback_search bname target_platforms)"

section \<open>The result cache\<close>

text \<open>The dictionary \<open>final_result\<close> that the handler builds and stores.\<close>

record final_result =
  fr_success :: bool
  fr_query :: string
  fr_platform :: string
  fr_results :: "profile list"
  fr_method :: string
  totalFound :: nat
  searchedUsernames :: "string list"
  fr_source :: string

text \<open>
  The table \<open>api_cache\<close> lives in an external store, reached through a client library.
  It is modelled as the list of its rows; a time stamp is a number of seconds. The client
  is \<open>None\<close> when the library or its configuration is missing.
\<close>

record cache_row =
  row_id :: nat
  query_hash :: string
  query_text :: string
  row_platform :: string
  response_data :: final_result
  expires_at :: int
  hit_count :: int
  last_accessed_at :: "int option"

record cached_result =
  cr_success :: bool
  cr_results :: "profile list"
  cr_query :: string
  cr_platform :: string
  hitCount :: int

text \<open>\<open>hashlib.md5(...).hexdigest()\<close> is a parameter \<open>md5_hex\<close>.\<close>

definition generate_query_hash :: "(string \<Rightarrow> string) \<Rightarrow> string \<Rightarrow> string \<Rightarrow> string" where
  "generate_query_hash md5_hex query pform = take 16 (md5_hex (py_strip (py_lower query) @ ''_'' @ pform))"

text \<open>
  The client builds a request with \<open>table(...).select('*').eq(...).eq(...).single()\<close>;
  only \<open>.execute()\<close> sends a request to the store and gives a response, which has the
  attribute \<open>data\<close>. The update and the insert of the source end with \<open>.execute()\<close>;
  the select of \<open>get_cached_result\<close> does not, so its \<open>result\<close> is the request itself.
\<close>

record select_request =
  eq_query_hash :: string
  eq_platform :: string

datatype py_error = AttributeError

text \<open>\<open>result.data\<close> on a request: it has no such attribute, and the read raises.\<close>

definition request_data :: "select_request \<Rightarrow> py_error + cache_row option" where
  "request_data request = Inl AttributeError"

definition update_hit :: "cache_row list \<Rightarrow> nat \<Rightarrow> int \<Rightarrow> int \<Rightarrow> cache_row list" where
  "update_hit rows rid hits now =
     map (\<lambda>r. if row_id r = rid then r\<lparr>hit_count := hits, last_accessed_at := Some now\<rparr> else r) rows"

text \<open>
  The function returns the cached result, if any, and the table after the call. An
  exception inside its \<open>try\<close> is caught and printed, and the function returns \<open>None\<close>.
\<close>

definition get_cached_result ::
  "(string \<Rightarrow> string) \<Rightarrow> int \<Rightarrow> cache_row list option \<Rightarrow> string \<Rightarrow> string \<Rightarrow>
   cached_result option \<times> cache_row list option" where
  "get_cached_result md5_hex now supabase query pform =
     (case supabase of
        None \<Rightarrow> (None, None)
      | Some rows \<Rightarrow>
          (case request_data \<lparr> eq_query_hash = generate_query_hash md5_hex query pform,
                               eq_platform = pform \<rparr> of
             Inl e \<Rightarrow> (None, Some rows)
           | Inr None \<Rightarrow> (None, Some rows)
           | Inr (Some d) \<Rightarrow>
               (Some \<lparr> cr_success = True,
                       cr_results = fr_results (response_data d),
                       cr_query = query_text d,
                       cr_platform = row_platform d,
                       hitCount = hit_count d + 1 \<rparr>,
                Some (update_hit rows (row_id d) (hit_count d + 1) now))))"

text \<open>
  \<open>cache_result\<close> inserts a row that expires ninety days after \<open>now\<close>. The store gives
  the new row an identifier that no row has yet.
\<close>

definition fresh_id :: "cache_row list \<Rightarrow> nat" where
  "fresh_id rows = Suc (fold max (map row_id rows) 0)"

definition cache_result ::
  "(string \<Rightarrow> string) \<Rightarrow> int \<Rightarrow> cache_row list option \<Rightarrow> string \<Rightarrow> string \<Rightarrow> final_result \<Rightarrow>
   cache_row list option" where
  "cache_result md5_hex now supabase query pform api_response =
     (case supabase of
        None \<Rightarrow> None
      | Some rows \<Rightarrow>
          Some (rows @ [\<lparr> row_id = fresh_id rows,
                          query_hash = generate_query_hash md5_hex query pform,
                          query_text = query,
                          row_platform = pform,
                          response_data = api_response,
                          expires_at = now + 90 * 86400,
                          hit_count = 1,
                          last_accessed_at = None \<rparr>]))"

section \<open>The handler\<close>

text \<open>
  The handler after the request body is parsed: \<open>raw_query\<close> is \<open>body.get('query', '')\<close>.
  It answers with a status code and one of three bodies, and returns the table.
\<close>

datatype response_body =
    Error_Body string
  | Cached_Body cached_result
  | Search_Body final_result

definition handler_post ::
  "(string list \<Rightarrow> string list) \<Rightarrow> (string \<Rightarrow> run_outcome) \<Rightarrow> (string \<Rightarrow> string) \<Rightarrow> int \<Rightarrow>
   cache_row list option \<Rightarrow> string \<Rightarrow> string list option \<Rightarrow>
   (int \<times> response_body) \<times> cache_row list option" where
  "handler_post iter run md5_hex now supabase raw_query platforms =
     (let query = py_strip raw_query in
      if query = [] \<or> length query < 2
      then ((400, Error_Body ''Query must be at least 2 characters''), supabase)
      else
        (case get_cached_result md5_hex now supabase query ''sherlock_osint'' of
           (Some cached, supabase') \<Rightarrow> ((200, Cached_Body cached), supabase')
         | (None, supabase') \<Rightarrow>
             (let sherlock_results = execute_sherlock_search iter run query platforms;
                  final = \<lparr> fr_success = True,
                            fr_query = query,
                            fr_platform = ''sherlock_osint'',
                            fr_results = profiles sherlock_results,
                            fr_method = ''osint'',
                            totalFound = total_profiles_found sherlock_results,
                            searchedUsernames = searched_usernames sherlock_results,
                            fr_source = ''sherlock'' \<rparr>
              in ((200, Search_Body final),
                  cache_result md5_hex now supabase' query ''sherlock_osint'' final))))"

section \<open>Notions used in the statements\<close>

text \<open>A cache row whose expiration time stamp is 50, and the result stored in it.\<close>

definition example_response :: final_result where
  "example_response =
     \<lparr> fr_success = True, fr_query = ''acme'', fr_platform = ''sherlock_osint'',
       fr_results = generate_fallback_profiles ''acme'' ''acme'', fr_method = ''osint'',
       totalFound = 6, searchedUsernames = [''acme''], fr_source = ''sherlock'' \<rparr>"

definition example_row :: cache_row where
  "example_row =
     \<lparr> row_id = 1, query_hash = ''acme_sherlock_os'', query_text = ''acme'',
       row_platform = ''sherlock_osint'', response_data = example_response,
       expires_at = 50, hit_count = 3, last_accessed_at = None \<rparr>"

text \<open>What one username adds to \<open>all_profiles\<close> in \<open>execute_sherlock_search\<close>.\<close>

definition probe_contribution :: "(string \<Rightarrow> run_outcome) \<Rightarrow> string \<Rightarrow> string \<Rightarrow> profile list" where
  "probe_contribution run bname uname =
     (case run uname of
        Completed returncode out \<Rightarrow>
          if returncode = 0 then parse_sherlock_output out uname bname else []
      | TimeoutExpired \<Rightarrow> generate_fallback_profiles uname bname
      | FileNotFoundError \<Rightarrow> generate_fallback_profiles uname bname
      | Other_Exception \<Rightarrow> [])"

text \<open>The usernames with a non-empty result, each with its hits, as \<open>all_results\<close> holds them.\<close>

definition found_results ::
  "(string \<Rightarrow> string list option \<Rightarrow> try_outcome) \<Rightarrow> string list option \<Rightarrow> string list \<Rightarrow>
   (string \<times> (string \<times> profile_data) list) list" where
  "found_results run platforms unames =
     filter (\<lambda>(uname, hits). hits \<noteq> []) (map (\<lambda>uname. (uname, sherlock_search run uname platforms)) unames)"

text \<open>The hits of \<open>all_results\<close> in the order in which \<open>process_results\<close> visits them.\<close>

definition result_hits ::
  "(string \<times> (string \<times> profile_data) list) list \<Rightarrow> (string \<times> string \<times> profile_data) list" where
  "result_hits all_results =
     concat (map (\<lambda>(uname, profs). map (\<lambda>(pform, pd). (uname, pform, pd)) profs) all_results)"

definition hit_url :: "string \<times> string \<times> profile_data \<Rightarrow> string" where
  "hit_url h = pd_url (snd (snd h))"

text \<open>Deduplication by the URL string: a hit stays, and every later hit with its URL goes.\<close>

fun first_by_url :: "(string \<times> string \<times> profile_data) list \<Rightarrow> (string \<times> string \<times> profile_data) list" where
  "first_by_url [] = []"
| "first_by_url (h # hs) = h # filter (\<lambda>h'. hit_url h' \<noteq> hit_url h) (first_by_url hs)"


text \<open>
  Example probes: for the function, a time-out for "acme", a failing run for "acmeinc" and
  one line of output for every other username; for the other program, a time-out, another
  exception, and one hit for every other username.
\<close>

definition example_run_fn :: "string \<Rightarrow> run_outcome" where
  "example_run_fn uname =
     (if uname = ''acme'' then TimeoutExpired
      else if uname = ''acmeinc'' then Completed 1 []
      else Completed 0 (''[+] Instagram: https://instagram.com/'' @ uname))"

definition example_run :: "string \<Rightarrow> string list option \<Rightarrow> try_outcome" where
  "example_run uname platforms =
     (if uname = ''acme_inc'' then Raised_TimeoutExpired
      else if uname = ''acme.inc'' then Raised_Exception
      else Returned [(''instagram'',
             \<lparr> pd_url = ''https://instagram.com/'' @ uname, pd_username = uname,
               pd_platform = ''instagram'', pd_verified = Some True, pd_source = ''sherlock'' \<rparr>)])"

text \<open>Two hits whose URLs differ in the case of the domain only, and two with one URL.\<close>

definition example_hit :: "string \<Rightarrow> string \<Rightarrow> profile_data" where
  "example_hit url uname =
     \<lparr> pd_url = url, pd_username = uname, pd_platform = ''instagram'',
       pd_verified = Some True, pd_source = ''sherlock'' \<rparr>"

definition case_variant_results :: "(string \<times> (string \<times> profile_data) list) list" where
  "case_variant_results =
     [(''acme'', [(''instagram'', example_hit ''https://Instagram.com/acme'' ''acme'')]),
      (''acmehq'', [(''instagram'', example_hit ''https://instagram.com/acme'' ''acmehq'')])]"

definition same_url_results :: "(string \<times> (string \<times> profile_data) list) list" where
  "same_url_results =
     [(''acme'', [(''instagram'', example_hit ''https://instagram.com/acme'' ''acme'')]),
      (''acmehq'', [(''instagram'', example_hit ''https://instagram.com/acme'' ''acmehq'')])]"

text \<open>The business words removed one after another, each wherever it occurs.\<close>

definition strip_business_words :: "string \<Rightarrow> string" where
  "strip_business_words s = fold (\<lambda>word t. py_replace word [] t) business_words s"

definition ascii_char :: "char \<Rightarrow> bool" where
  "ascii_char c = (of_char c < (128::nat))"

text \<open>The string \<open>t\<close> is \<open>s\<close> with white space added at its ends.\<close>

definition padded :: "string \<Rightarrow> string \<Rightarrow> bool" where
  "padded s t = (\<exists>a b. list_all py_isspace a \<and> list_all py_isspace b \<and> t = a @ s @ b)"

text \<open>Another set order: the elements in the reverse order of their last insertion.\<close>

definition reverse_order :: "string list \<Rightarrow> string list" where
  "reverse_order xs = remdups (rev xs)"

text \<open>
  An example probe for the function: \<open>subprocess.run\<close> raises an exception of another class
  for "testco" and returns one line of output for every other username.
\<close>

definition example_run_abort :: "string \<Rightarrow> run_outcome" where
  "example_run_abort uname =
     (if uname = ''testco'' then Other_Exception
      else Completed 0 (''[+] Instagram: https://instagram.com/'' @ uname))"

text \<open>One turn of the inner loop of \<open>process_results\<close> on a hit.\<close>

definition fold_step ::
  "(string \<Rightarrow> int) \<Rightarrow> string \<Rightarrow> string \<times> string \<times> profile_data \<Rightarrow>
   osint_profile list \<times> string set \<Rightarrow> osint_profile list \<times> string set" where
  "fold_step str_hash bname h st =
     (if hit_url h \<in> snd st then st
      else (fst st @ [processed_profile str_hash bname (fst h) (fst (snd h)) (snd (snd h))],
            insert (hit_url h) (snd st)))"


section \<open>Properties of the set order\<close>

lemma set_order_insertion_order: "set_order insertion_order"
  by (simp add: set_order_def insertion_order_def)

lemma set_order_distinct: "set_order iter \<Longrightarrow> distinct (iter xs)"
  by (simp add: set_order_def)

lemma set_order_set: "set_order iter \<Longrightarrow> set (iter xs) = set xs"
  by (simp add: set_order_def)

lemma set_order_length: "set_order iter \<Longrightarrow> length (iter xs) = card (set xs)"
  using distinct_card [of "iter xs"] by (simp add: set_order_def)

section \<open>The cleaned names\<close>

lemma lower_not_upper: "\<not> ascii_upper (lower_char c)"
proof -
  have lt: "(of_char c :: nat) < 256" by simp
  show ?thesis
    using lt unfolding lower_char_def ascii_upper_def in_range_def
    by (auto simp: of_char_of)
qed

lemma filter_re_alnum_lower: "filter re_alnum (py_lower s) = filter lower_alnum (py_lower s)"
  unfolding py_lower_def
  by (induction s) (auto simp: re_alnum_def lower_alnum_def lower_not_upper)

lemma lower_ascii: "ascii_char c \<Longrightarrow> ascii_char (lower_char c)"
  unfolding lower_char_def ascii_char_def ascii_upper_def in_range_def
  by (auto simp: of_char_of)

lemma isalnum_ascii:
  "ascii_char c \<Longrightarrow> \<not> ascii_upper c \<Longrightarrow> py_isalnum c = lower_alnum c"
  unfolding py_isalnum_def ascii_char_def re_alnum_def lower_alnum_def in_range_def ascii_upper_def
  by auto

lemma isalnum_not_space: "py_isalnum c \<Longrightarrow> \<not> py_isspace c"
  unfolding py_isalnum_def py_isspace_def re_alnum_def ascii_lower_def ascii_upper_def
    ascii_digit_def in_range_def
  by auto

lemma set_py_replace: "set (py_replace word [] s) \<subseteq> set s"
proof (induction word "[] :: string" s rule: py_replace.induct)
  case (1 old)
  then show ?case by simp
next
  case (2 old c cs)
  show ?case
  proof (cases "old \<noteq> [] \<and> prefix old (c # cs)")
    case True
    have "set (drop (length old) (c # cs)) \<subseteq> set (c # cs)" by (rule set_drop_subset)
    with 2(1) [OF True] True show ?thesis by auto
  next
    case False
    with 2(2) [OF False] show ?thesis by auto
  qed
qed

lemma set_strip_business_words: "set (fold (\<lambda>word t. py_replace word [] t) ws s) \<subseteq> set s"
proof (induction ws arbitrary: s)
  case Nil
  then show ?case by simp
next
  case (Cons w ws)
  have "set (fold (\<lambda>word t. py_replace word [] t) ws (py_replace w [] s)) \<subseteq> set (py_replace w [] s)"
    by (rule Cons.IH)
  with set_py_replace [of w s] show ?case by auto
qed

lemma py_replace_leading_space:
  assumes "list_all py_isspace a" and "word \<noteq> []" and "\<not> py_isspace (hd word)"
  shows "py_replace word [] (a @ s) = a @ py_replace word [] s"
  using assms(1)
proof (induction a)
  case Nil
  then show ?case by simp
next
  case (Cons c a)
  have "\<not> prefix word (c # a @ s)"
  proof
    assume "prefix word (c # a @ s)"
    with assms(2) have "hd word = c" by (cases word) auto
    with Cons.prems assms(3) show False by simp
  qed
  with Cons show ?case by simp
qed

lemma prefix_before_space:
  assumes "list_all py_isspace b" and "\<forall>c \<in> set word. \<not> py_isspace c"
  shows "prefix word (s @ b) = prefix word s"
proof
  assume "prefix word (s @ b)"
  then consider "prefix word s" | us where "word = s @ us" "prefix us b"
    by (auto simp: prefix_append)
  then show "prefix word s"
  proof cases
    case 1
    then show ?thesis .
  next
    case 2
    have "us = []"
    proof (rule ccontr)
      assume "us \<noteq> []"
      then obtain u us' where us: "us = u # us'" by (cases us) auto
      with 2 have "u \<in> set b" by (auto simp: prefix_def)
      with assms(1) have "py_isspace u" by (simp add: list_all_iff)
      moreover have "u \<in> set word" using 2 us by simp
      ultimately show False using assms(2) by blast
    qed
    with 2 show ?thesis by simp
  qed
next
  assume "prefix word s"
  then show "prefix word (s @ b)" by (rule prefix_prefix)
qed

lemma py_replace_trailing_space:
  "list_all py_isspace b \<Longrightarrow> \<forall>c \<in> set word. \<not> py_isspace c \<Longrightarrow> word \<noteq> [] \<Longrightarrow>
   py_replace word [] (s @ b) = py_replace word [] s @ b"
proof (induction word "[] :: string" s rule: py_replace.induct)
  case (1 old)
  have "\<not> py_isspace (hd old)" using 1 by (cases old) auto
  from py_replace_leading_space [OF 1(1) 1(3) this, of "[]"] show ?case by simp
next
  case (2 old c cs)
  note pre = prefix_before_space [OF 2(3) 2(4), of "c # cs"]
  show ?case
  proof (cases "old \<noteq> [] \<and> prefix old (c # cs)")
    case True
    then have len: "length old \<le> length (c # cs)" by (auto dest: prefix_length_le)
    have "drop (length old) ((c # cs) @ b) = drop (length old) (c # cs) @ b"
      using len drop_append [of "length old" "c # cs" b] by (simp del: drop_append)
    with 2(1) [OF True 2(3) 2(4) 2(5)] True pre show ?thesis by simp
  next
    case False
    with 2(2) [OF False 2(3) 2(4) 2(5)] pre 2(5) show ?thesis by simp
  qed
qed

lemma padded_replace:
  assumes "padded s t" and "\<forall>c \<in> set word. \<not> py_isspace c" and "word \<noteq> []"
  shows "padded (py_replace word [] s) (py_replace word [] t)"
proof -
  from assms(1) obtain a b where a: "list_all py_isspace a" and b: "list_all py_isspace b"
    and t: "t = a @ s @ b" by (auto simp: padded_def)
  have h: "\<not> py_isspace (hd word)" using assms(2,3) by (cases word) auto
  have "py_replace word [] t = a @ py_replace word [] s @ b"
    unfolding t
    by (simp add: py_replace_leading_space [OF a assms(3) h]
                  py_replace_trailing_space [OF b assms(2) assms(3)])
  with a b show ?thesis by (auto simp: padded_def)
qed

lemma padded_strip: "padded (py_strip s) s"
proof -
  let ?u = "dropWhile py_isspace s"
  have 1: "s = takeWhile py_isspace s @ ?u" by simp
  have 2: "?u = py_strip s @ rev (takeWhile py_isspace (rev ?u))"
    unfolding py_strip_def by (metis rev_append rev_rev_ident takeWhile_dropWhile_id)
  have 3: "s = takeWhile py_isspace s @ py_strip s @ rev (takeWhile py_isspace (rev ?u))"
    using 1 2 by metis
  have 4: "list_all py_isspace (takeWhile py_isspace s)"
    by (simp add: list_all_iff) (meson set_takeWhileD)
  have 5: "list_all py_isspace (rev (takeWhile py_isspace (rev ?u)))"
    by (simp add: list_all_iff) (meson set_takeWhileD)
  show ?thesis unfolding padded_def using 3 4 5 by blast
qed

lemma padded_trans: "padded r s \<Longrightarrow> padded s t \<Longrightarrow> padded r t"
proof -
  assume "padded r s" and "padded s t"
  then obtain a b a' b' where "list_all py_isspace a" "list_all py_isspace b" "s = a @ r @ b"
    "list_all py_isspace a'" "list_all py_isspace b'" "t = a' @ s @ b'"
    by (auto simp: padded_def)
  then have "list_all py_isspace (a' @ a)" "list_all py_isspace (b @ b')" "t = (a' @ a) @ r @ (b @ b')"
    by simp_all
  then show ?thesis unfolding padded_def by blast
qed

lemma padded_filter: "padded s t \<Longrightarrow> filter py_isalnum t = filter py_isalnum s"
proof -
  assume "padded s t"
  then obtain a b where a: "list_all py_isspace a" and b: "list_all py_isspace b"
    and t: "t = a @ s @ b" by (auto simp: padded_def)
  have "filter py_isalnum a = []" "filter py_isalnum b = []"
    using a b isalnum_not_space by (auto simp: list_all_iff filter_empty_conv)
  then show ?thesis by (simp add: t)
qed

lemma padded_remove_words:
  "padded s t \<Longrightarrow> \<forall>w \<in> set ws. w \<noteq> [] \<and> (\<forall>c \<in> set w. \<not> py_isspace c) \<Longrightarrow>
   padded (remove_words ws s) (fold (\<lambda>word t. py_replace word [] t) ws t)"
proof (induction ws arbitrary: s t)
  case Nil
  then show ?case by simp
next
  case (Cons w ws)
  have "padded (py_replace w [] s) (py_replace w [] t)"
    using Cons.prems by (intro padded_replace) auto
  then have "padded (py_strip (py_replace w [] s)) (py_replace w [] t)"
    using padded_strip padded_trans by blast
  with Cons show ?case by simp
qed

lemma business_words_no_space:
  "\<forall>w \<in> set business_words. w \<noteq> [] \<and> (\<forall>c \<in> set w. \<not> py_isspace c)"
  by code_simp

lemma fn_base_strip_business_words:
  "fn_base bname = filter py_isalnum (strip_business_words (py_lower bname))"
proof -
  have "padded (fn_clean_name bname) (strip_business_words (py_lower bname))"
    unfolding fn_clean_name_def strip_business_words_def
    by (rule padded_remove_words [OF padded_strip business_words_no_space])
  then show ?thesis
    by (simp add: fn_base_def padded_filter)
qed

lemma ascii_filter:
  assumes "list_all ascii_char bname"
  shows "filter py_isalnum (strip_business_words (py_lower bname))
         = filter lower_alnum (strip_business_words (py_lower bname))"
proof (rule filter_cong [OF refl])
  fix c assume "c \<in> set (strip_business_words (py_lower bname))"
  then have "c \<in> set (py_lower bname)"
    using set_strip_business_words unfolding strip_business_words_def by blast
  then obtain d where "d \<in> set bname" and c: "c = lower_char d"
    by (auto simp: py_lower_def)
  with assms have "ascii_char d" by (simp add: list_all_iff)
  then show "py_isalnum c = lower_alnum c"
    unfolding c by (intro isalnum_ascii lower_ascii lower_not_upper)
qed

text \<open>
  C5, as the code has it. The cleaned name of \<open>python/sherlock_business_search.py\<close> is
  the name in lower case without the characters outside a-z and 0-9, and holds these
  characters only; no business word is removed. The base of the function is the name in
  lower case, with each business word removed in the order of the list wherever it occurs,
  also inside a longer word, and without the characters that \<open>str.isalnum\<close> rejects; the
  white space stripped between the removals makes no difference. For a name of ASCII
  characters the base holds the characters a-z and 0-9 only.
\<close>

theorem canonical_tokens:
  "clean_name bname = filter lower_alnum (py_lower bname) \<and>
   list_all lower_alnum (clean_name bname) \<and>
   fn_base bname = filter py_isalnum (strip_business_words (py_lower bname)) \<and>
   (list_all ascii_char bname \<longrightarrow>
      fn_base bname = filter lower_alnum (strip_business_words (py_lower bname)) \<and>
      list_all lower_alnum (fn_base bname))"
proof -
  have a: "clean_name bname = filter lower_alnum (py_lower bname)"
    by (simp add: clean_name_def filter_re_alnum_lower)
  have b: "list_all lower_alnum (clean_name bname)"
    unfolding a by (simp add: list_all_iff)
  have c: "list_all ascii_char bname \<longrightarrow>
      fn_base bname = filter lower_alnum (strip_business_words (py_lower bname)) \<and>
      list_all lower_alnum (fn_base bname)"
    by (simp add: fn_base_strip_business_words ascii_filter list_all_iff)
  show ?thesis
    by (intro conjI) (rule a, rule b, rule fn_base_strip_business_words, rule c)
qed

theorem canonical_tokens_witness:
  "list_all ascii_char ''Coca Cola Inc'' \<and>
   clean_name ''Coca Cola Inc'' = ''cocacolainc'' \<and>
   fn_base ''Coca Cola Inc'' = ''cala'' \<and>
   list_all lower_alnum (fn_base ''Coca Cola Inc'')"
proof -
  have h: "list_all ascii_char ''Coca Cola Inc''" by code_simp
  have e1: "filter lower_alnum (py_lower ''Coca Cola Inc'') = ''cocacolainc''" by code_simp
  have e2: "filter lower_alnum (strip_business_words (py_lower ''Coca Cola Inc'')) = ''cala''"
    by code_simp
  note t = canonical_tokens [of "''Coca Cola Inc''"]
  have c: "fn_base ''Coca Cola Inc'' = filter lower_alnum (strip_business_words (py_lower ''Coca Cola Inc'')) \<and>
      list_all lower_alnum (fn_base ''Coca Cola Inc'')"
    by (rule mp [OF conjunct2 [OF conjunct2 [OF conjunct2 [OF t]]] h])
  have k1: "clean_name ''Coca Cola Inc'' = ''cocacolainc''"
    using conjunct1 [OF t] e1 by simp
  have k2: "fn_base ''Coca Cola Inc'' = ''cala''"
    using c e2 by simp
  have k3: "list_all lower_alnum (fn_base ''Coca Cola Inc'')"
    using c by (rule conjunct2)
  show ?thesis
    by (intro conjI) (rule h, rule k1, rule k2, rule k3)
qed

text \<open>
  C5 as stated fails: for "Acme Inc" the cleaned name of
  \<open>python/sherlock_business_search.py\<close> keeps the business word "inc", and the base of
  the function keeps the letter U+00E9, which is outside a-z and 0-9.
\<close>

theorem canonical_token_counterexample:
  "clean_name ''Acme Inc'' = ''acmeinc'' \<and>
   fn_base (''caf'' @ [CHR 0xE9]) = ''caf'' @ [CHR 0xE9] \<and>
   \<not> lower_alnum (CHR 0xE9)"
  by code_simp

section \<open>The username generators\<close>

lemma set_generate_subset:
  "set_order iter \<Longrightarrow>
   set (generate_business_usernames iter bname)
     \<subseteq> {u \<in> set (username_insertions bname). 3 \<le> length u \<and> length u \<le> 30}"
proof -
  assume so: "set_order iter"
  have "set (generate_business_usernames iter bname)
        \<subseteq> set (filter (\<lambda>u. length u \<ge> 3 \<and> length u \<le> 30) (iter (username_insertions bname)))"
    unfolding generate_business_usernames_def Let_def
    using set_take_subset [of 10 "sort_key (\<lambda>x. username_score x bname)
        (filter (\<lambda>u. length u \<ge> 3 \<and> length u \<le> 30) (iter (username_insertions bname)))"]
    by simp
  then show ?thesis using so by (auto simp: set_order_set)
qed

lemma distinct_generate: "set_order iter \<Longrightarrow> distinct (generate_business_usernames iter bname)"
  unfolding generate_business_usernames_def Let_def
  by (simp add: distinct_take set_order_distinct)

lemma set_fn_generate_subset:
  "set_order iter \<Longrightarrow>
   set (fn_generate_business_usernames iter bname)
     \<subseteq> {u \<in> set (fn_usernames bname). 2 \<le> length u}"
proof -
  assume so: "set_order iter"
  have "set (fn_generate_business_usernames iter bname)
        \<subseteq> set (iter (filter (\<lambda>u. u \<noteq> [] \<and> length u \<ge> 2) (fn_usernames bname)))"
    unfolding fn_generate_business_usernames_def by (rule set_take_subset)
  then show ?thesis using so by (auto simp: set_order_set)
qed

lemma distinct_fn_generate: "set_order iter \<Longrightarrow> distinct (fn_generate_business_usernames iter bname)"
  unfolding fn_generate_business_usernames_def
  by (simp add: distinct_take set_order_distinct)

text \<open>When the set has at most five elements the slice \<open>[:5]\<close> keeps all of them.\<close>

lemma fn_generate_all:
  assumes "set_order iter"
    and "card (set (filter (\<lambda>u. u \<noteq> [] \<and> length u \<ge> 2) (fn_usernames bname))) \<le> 5"
  shows "set (fn_generate_business_usernames iter bname)
         = set (filter (\<lambda>u. u \<noteq> [] \<and> length u \<ge> 2) (fn_usernames bname))"
  using assms unfolding fn_generate_business_usernames_def
  by (simp add: set_order_length set_order_set)

text \<open>
  The sort of \<open>generate_business_usernames\<close> has no \<open>reverse=True\<close>: the list it returns
  is ascending in the score, so the slice keeps the ten candidates of lowest score.
\<close>

lemma generate_ascending:
  "sorted (map (\<lambda>u. username_score u bname) (generate_business_usernames iter bname))"
  unfolding generate_business_usernames_def Let_def
  by (simp add: take_map [symmetric] sorted_wrt_take del: take_map)

text \<open>
  An element among the first \<open>k\<close> of an ascending sort has fewer than \<open>k\<close> elements of
  smaller key.
\<close>

lemma take_sort_key_smaller:
  assumes "x \<in> set (take k (sort_key f xs))"
  shows "length (filter (\<lambda>y. f y < f x) xs) < k"
proof -
  let ?ys = "sort_key f xs"
  from assms obtain i where i: "i < k" "i < length ?ys" and x: "?ys ! i = x"
    by (auto simp: in_set_conv_nth)
  have s: "sorted (map f ?ys)" by simp
  have "filter (\<lambda>y. f y < f x) (drop i ?ys) = []"
  proof -
    have "\<forall>y \<in> set (drop i ?ys). \<not> f y < f x"
    proof
      fix y assume "y \<in> set (drop i ?ys)"
      then obtain j where j: "j < length (drop i ?ys)" and y: "drop i ?ys ! j = y"
        by (auto simp: in_set_conv_nth)
      then have ij: "i + j < length ?ys" by simp
      have "map f ?ys ! i \<le> map f ?ys ! (i + j)"
        using s ij by (intro sorted_nth_mono) simp_all
      then have "f x \<le> f y" using x y i ij j by simp
      then show "\<not> f y < f x" by simp
    qed
    then show ?thesis by (simp add: filter_empty_conv)
  qed
  then have "filter (\<lambda>y. f y < f x) ?ys = filter (\<lambda>y. f y < f x) (take i ?ys)"
    using filter_append [of "\<lambda>y. f y < f x" "take i ?ys" "drop i ?ys"] by simp
  then have "length (filter (\<lambda>y. f y < f x) ?ys) \<le> i"
    using length_filter_le [of "\<lambda>y. f y < f x" "take i ?ys"] i by simp
  moreover have "length (filter (\<lambda>y. f y < f x) ?ys) = length (filter (\<lambda>y. f y < f x) xs)"
    by (simp add: filter_sort)
  ultimately show ?thesis using i by simp
qed

lemma length_filter_set_order:
  assumes "set_order iter"
  shows "length (filter P (iter xs)) = length (remdups (filter P xs))"
proof -
  have d: "distinct (filter P (iter xs))" using assms by (simp add: set_order_distinct)
  have e: "set (filter P (iter xs)) = set (filter P xs)"
    using assms by (simp add: set_order_set)
  have "length (filter P (iter xs)) = card (set (filter P (iter xs)))"
    using distinct_card [OF d] by simp
  also have "\<dots> = card (set (filter P xs))" by (simp only: e)
  also have "\<dots> = length (remdups (filter P xs))" by (rule card_set)
  finally show ?thesis .
qed

text \<open>
  For "Acme Inc" the cleaned name "acmeinc" has the highest score of the 32 candidates, and
  the ascending sort drops it under every set order.
\<close>

lemma acmeinc_smaller:
  "length (remdups (filter (\<lambda>y. (3 \<le> length y \<and> length y \<le> 30) \<and>
       username_score y ''Acme Inc'' < username_score ''acmeinc'' ''Acme Inc'')
     (username_insertions ''Acme Inc''))) = 31"
  by code_simp

lemma generate_drops_exact_match:
  assumes "set_order iter"
  shows "''acmeinc'' \<notin> set (generate_business_usernames iter ''Acme Inc'')"
proof
  assume "''acmeinc'' \<in> set (generate_business_usernames iter ''Acme Inc'')"
  then have "length (filter (\<lambda>y. username_score y ''Acme Inc'' < username_score ''acmeinc'' ''Acme Inc'')
               (filter (\<lambda>u. length u \<ge> 3 \<and> length u \<le> 30) (iter (username_insertions ''Acme Inc'')))) < 10"
    unfolding generate_business_usernames_def Let_def by (rule take_sort_key_smaller)
  then have "length (filter (\<lambda>y. (3 \<le> length y \<and> length y \<le> 30) \<and>
       username_score y ''Acme Inc'' < username_score ''acmeinc'' ''Acme Inc'')
       (iter (username_insertions ''Acme Inc''))) < 10"
    by (simp add: conj_commute)
  then show False
    unfolding length_filter_set_order [OF assms] acmeinc_smaller by simp
qed

lemma fn_usernames_acme:
  "filter (\<lambda>u. u \<noteq> [] \<and> length u \<ge> 2) (fn_usernames ''Acme Inc'')
   = [''acme'', ''acme'', ''acme'', ''acme'', ''acmeofficial'', ''officialacme'', ''acmeinc'', ''acmeco'']"
  by code_simp

lemma acme_not_inserted: "''acme'' \<notin> set (username_insertions ''Acme Inc'')"
  by code_simp

text \<open>
  C1, as the code has it. Both generators cut their list: at most ten candidates from
  \<open>python/sherlock_business_search.py\<close>, at most five from the function. For the name
  "Acme Inc" the function, which removes the business word "inc", has the candidate "acme"
  under every set order; the other generator removes no business word, and "acme" is not
  among its candidates. Nothing is said here about the order of the candidates.
\<close>

theorem generate_truncated_acme:
  "set_order iter \<Longrightarrow>
   length (generate_business_usernames iter bname) \<le> 10 \<and>
   length (fn_generate_business_usernames iter bname) \<le> 5 \<and>
   ''acme'' \<in> set (fn_generate_business_usernames iter ''Acme Inc'') \<and>
   ''acme'' \<notin> set (generate_business_usernames iter ''Acme Inc'')"
proof -
  assume so: "set_order iter"
  have a: "length (generate_business_usernames iter bname) \<le> 10"
    by (simp add: generate_business_usernames_def Let_def)
  have b: "length (fn_generate_business_usernames iter bname) \<le> 5"
    by (simp add: fn_generate_business_usernames_def)
  have c: "''acme'' \<in> set (fn_generate_business_usernames iter ''Acme Inc'')"
    by (subst fn_generate_all [OF so]) (simp_all add: fn_usernames_acme card_set)
  have d: "''acme'' \<notin> set (generate_business_usernames iter ''Acme Inc'')"
    using set_generate_subset [OF so, of "''Acme Inc''"] acme_not_inserted by blast
  show ?thesis using a b c d by simp
qed

theorem generate_truncated_acme_witness:
  "set_order insertion_order \<and>
   length (generate_business_usernames insertion_order ''Test Company'') \<le> 10 \<and>
   length (fn_generate_business_usernames insertion_order ''Test Company'') \<le> 5 \<and>
   ''acme'' \<in> set (fn_generate_business_usernames insertion_order ''Acme Inc'') \<and>
   ''acme'' \<notin> set (generate_business_usernames insertion_order ''Acme Inc'')"
  using generate_truncated_acme [OF set_order_insertion_order, of "''Test Company''"]
  by (simp add: set_order_insertion_order)

text \<open>
  C1 as stated fails: the generator of \<open>python/sherlock_business_search.py\<close>, run on
  "Acme Inc", does not return "acme".
\<close>

theorem generate_acme_counterexample:
  "''acme'' \<notin> set (generate_business_usernames insertion_order ''Acme Inc'')"
  by code_simp

text \<open>
  C4, as the code has it. Every candidate of \<open>python/sherlock_business_search.py\<close> has
  between 3 and 30 characters; the function keeps every candidate of at least 2 characters
  and has no upper bound. Neither list repeats a string.
\<close>

theorem generated_usernames_bounds:
  "set_order iter \<Longrightarrow>
   (\<forall>u \<in> set (generate_business_usernames iter bname). 3 \<le> length u \<and> length u \<le> 30) \<and>
   distinct (generate_business_usernames iter bname) \<and>
   (\<forall>u \<in> set (fn_generate_business_usernames iter bname). 2 \<le> length u) \<and>
   distinct (fn_generate_business_usernames iter bname)"
  using set_generate_subset [of iter bname] set_fn_generate_subset [of iter bname]
  by (auto simp: distinct_generate distinct_fn_generate)

theorem generated_usernames_bounds_witness:
  "set_order insertion_order \<and>
   list_all (\<lambda>u. 3 \<le> length u \<and> length u \<le> 30) (generate_business_usernames insertion_order ''Acme Inc'') \<and>
   distinct (generate_business_usernames insertion_order ''Acme Inc'') \<and>
   list_all (\<lambda>u. 2 \<le> length u) (fn_generate_business_usernames insertion_order ''Acme Inc'') \<and>
   distinct (fn_generate_business_usernames insertion_order ''Acme Inc'')"
  using generated_usernames_bounds [OF set_order_insertion_order, of "''Acme Inc''"]
  by (simp add: set_order_insertion_order list_all_iff)

text \<open>
  The name "ab" gives the function a set of five candidates, so the candidate "ab" of two
  characters is returned whatever the set order is.
\<close>

lemma fn_usernames_ab:
  "filter (\<lambda>u. u \<noteq> [] \<and> length u \<ge> 2) (fn_usernames ''ab'')
   = [''ab'', ''ab'', ''ab'', ''ab'', ''abofficial'', ''officialab'', ''abinc'', ''abco'']"
  by code_simp

lemma fn_generate_ab_any_order:
  "set_order iter \<Longrightarrow> ''ab'' \<in> set (fn_generate_business_usernames iter ''ab'')"
  by (subst fn_generate_all) (simp_all add: fn_usernames_ab card_set)

text \<open>C4 as stated fails: the function returns the candidate "ab" for the name "ab".\<close>

theorem fn_generate_short_counterexample:
  "''ab'' \<in> set (fn_generate_business_usernames insertion_order ''ab'') \<and> \<not> 3 \<le> length ''ab''"
  by code_simp

lemma set_order_reverse_order: "set_order reverse_order"
  by (simp add: set_order_def reverse_order_def)

text \<open>The keys of a sorted list depend on the elements only, not on their order before the sort.\<close>

lemma sorted_keys_unique:
  assumes "distinct xs" and "distinct ys" and "set xs = set ys"
  shows "map f (sort_key f xs) = map f (sort_key f ys)"
proof -
  have m: "mset xs = mset ys"
    using assms by (simp add: set_eq_iff_mset_eq_distinct)
  have "sort (map f xs) = map f (sort_key f xs)"
    by (rule properties_for_sort) simp_all
  moreover have "sort (map f xs) = map f (sort_key f ys)"
    by (rule properties_for_sort) (simp_all add: m)
  ultimately show ?thesis by simp
qed

text \<open>
  C9, as the code has it. Both generators iterate a set, and two calls on the same name
  agree up to the order of that iteration: under any two set orders the lists of
  \<open>python/sherlock_business_search.py\<close> carry the same scores position by position, the
  lists of the function have the same length, and they hold the same candidates when the
  function has at most five candidates.
\<close>

theorem generate_up_to_set_order:
  assumes "set_order iter1" and "set_order iter2"
  shows "map (\<lambda>u. username_score u bname) (generate_business_usernames iter1 bname)
           = map (\<lambda>u. username_score u bname) (generate_business_usernames iter2 bname) \<and>
         length (fn_generate_business_usernames iter1 bname)
           = length (fn_generate_business_usernames iter2 bname) \<and>
         (card (set (filter (\<lambda>u. u \<noteq> [] \<and> length u \<ge> 2) (fn_usernames bname))) \<le> 5 \<longrightarrow>
            set (fn_generate_business_usernames iter1 bname)
              = set (fn_generate_business_usernames iter2 bname))"
proof -
  let ?valid = "\<lambda>iter. filter (\<lambda>u. length u \<ge> 3 \<and> length u \<le> 30) (iter (username_insertions bname))"
  have "map (\<lambda>u. username_score u bname) (sort_key (\<lambda>x. username_score x bname) (?valid iter1))
        = map (\<lambda>u. username_score u bname) (sort_key (\<lambda>x. username_score x bname) (?valid iter2))"
    using assms by (intro sorted_keys_unique) (simp_all add: set_order_distinct set_order_set)
  then have a: "map (\<lambda>u. username_score u bname) (generate_business_usernames iter1 bname)
           = map (\<lambda>u. username_score u bname) (generate_business_usernames iter2 bname)"
    unfolding generate_business_usernames_def Let_def take_map [symmetric] by simp
  have b: "length (fn_generate_business_usernames iter1 bname)
           = length (fn_generate_business_usernames iter2 bname)"
    using assms by (simp add: fn_generate_business_usernames_def set_order_length)
  have c: "card (set (filter (\<lambda>u. u \<noteq> [] \<and> length u \<ge> 2) (fn_usernames bname))) \<le> 5 \<longrightarrow>
            set (fn_generate_business_usernames iter1 bname)
              = set (fn_generate_business_usernames iter2 bname)"
    using assms by (simp add: fn_generate_all)
  show ?thesis by (intro conjI) (rule a, rule b, rule c)
qed

theorem generate_up_to_set_order_witness:
  "set_order insertion_order \<and> set_order reverse_order \<and>
   card (set (filter (\<lambda>u. u \<noteq> [] \<and> length u \<ge> 2) (fn_usernames ''Acme Inc''))) \<le> 5 \<and>
   map (\<lambda>u. username_score u ''Acme Inc'') (generate_business_usernames reverse_order ''Acme Inc'')
     = [6, 6, 6, 42, 42, 85 / 2, 85 / 2, 44, 44, 44] \<and>
   length (fn_generate_business_usernames reverse_order ''Acme Inc'') = 5 \<and>
   set (fn_generate_business_usernames reverse_order ''Acme Inc'')
     = {''acme'', ''acmeofficial'', ''officialacme'', ''acmeinc'', ''acmeco''}"
proof -
  note t = generate_up_to_set_order [OF set_order_insertion_order set_order_reverse_order,
             of "''Acme Inc''"]
  have c: "card (set (filter (\<lambda>u. u \<noteq> [] \<and> length u \<ge> 2) (fn_usernames ''Acme Inc''))) \<le> 5"
    by (simp add: fn_usernames_acme card_set)
  have e1: "map (\<lambda>u. username_score u ''Acme Inc'') (generate_business_usernames insertion_order ''Acme Inc'')
     = [6, 6, 6, 42, 42, 85 / 2, 85 / 2, 44, 44, 44]"
    by code_simp
  have e2: "fn_generate_business_usernames insertion_order ''Acme Inc''
     = [''acme'', ''acmeofficial'', ''officialacme'', ''acmeinc'', ''acmeco'']"
    by code_simp
  have k1: "map (\<lambda>u. username_score u ''Acme Inc'') (generate_business_usernames reverse_order ''Acme Inc'')
     = [6, 6, 6, 42, 42, 85 / 2, 85 / 2, 44, 44, 44]"
    using conjunct1 [OF t] e1 by simp
  have k2: "length (fn_generate_business_usernames reverse_order ''Acme Inc'') = 5"
    using conjunct1 [OF conjunct2 [OF t]] e2 by simp
  have k3: "set (fn_generate_business_usernames reverse_order ''Acme Inc'')
     = {''acme'', ''acmeofficial'', ''officialacme'', ''acmeinc'', ''acmeco''}"
    using mp [OF conjunct2 [OF conjunct2 [OF t]] c] e2 by simp
  show ?thesis
    using set_order_insertion_order set_order_reverse_order c k1 k2 k3 by blast
qed

text \<open>
  C9 as stated fails: under two set orders the generator of
  \<open>python/sherlock_business_search.py\<close> returns the candidates of equal score in another
  order, and also other candidates at the cut; the function returns other candidates.
\<close>

theorem set_order_counterexample:
  "set_order insertion_order \<and> set_order reverse_order \<and>
   generate_business_usernames insertion_order ''Acme Inc''
     = [''acme_inc'', ''acme.inc'', ''acme-inc'', ''acmeinc_official'', ''official_acmeinc'',
        ''acmeincofficial'', ''officialacmeinc'', ''acmeinc_real'', ''real_acmeinc'', ''acmeinc_team''] \<and>
   generate_business_usernames reverse_order ''Acme Inc''
     = [''acme-inc'', ''acme.inc'', ''acme_inc'', ''official_acmeinc'', ''acmeinc_official'',
        ''officialacmeinc'', ''acmeincofficial'', ''team_acmeinc'', ''acmeinc_team'', ''real_acmeinc''] \<and>
   fn_generate_business_usernames insertion_order ''Foo Bar''
     = [''foobar'', ''foo_bar'', ''foo-bar'', ''foobarofficial'', ''officialfoobar''] \<and>
   fn_generate_business_usernames reverse_order ''Foo Bar''
     = [''foobarco'', ''foobarinc'', ''officialfoobar'', ''foobarofficial'', ''foo-bar'']"
proof -
  have a: "generate_business_usernames insertion_order ''Acme Inc''
     = [''acme_inc'', ''acme.inc'', ''acme-inc'', ''acmeinc_official'', ''official_acmeinc'',
        ''acmeincofficial'', ''officialacmeinc'', ''acmeinc_real'', ''real_acmeinc'', ''acmeinc_team'']"
    by code_simp
  have b: "generate_business_usernames reverse_order ''Acme Inc''
     = [''acme-inc'', ''acme.inc'', ''acme_inc'', ''official_acmeinc'', ''acmeinc_official'',
        ''officialacmeinc'', ''acmeincofficial'', ''team_acmeinc'', ''acmeinc_team'', ''real_acmeinc'']"
    by code_simp
  have c: "fn_generate_business_usernames insertion_order ''Foo Bar''
     = [''foobar'', ''foo_bar'', ''foo-bar'', ''foobarofficial'', ''officialfoobar'']"
    by code_simp
  have d: "fn_generate_business_usernames reverse_order ''Foo Bar''
     = [''foobarco'', ''foobarinc'', ''officialfoobar'', ''foobarofficial'', ''foo-bar'']"
    by code_simp
  show ?thesis
    using set_order_insertion_order set_order_reverse_order a b c d by blast
qed

section \<open>Relevance and ranking\<close>

lemma sorted_wrt_sort_reverse:
  "sorted_wrt (\<lambda>p q. key p \<ge> key q) (sort_reverse key xs)"
proof -
  have "sorted (map key (sort_key key (rev xs)))" by simp
  then have "sorted_wrt (\<lambda>p q. key p \<le> key q) (sort_key key (rev xs))"
    by (simp add: sorted_wrt_map)
  then have "sorted_wrt (\<lambda>q p. key p \<le> key q) (rev (sort_key key (rev xs)))"
    by (simp add: sorted_wrt_rev)
  then show ?thesis by (simp add: sort_reverse_def)
qed

text \<open>
  C6, as the code has it. A profile on linkedin whose username is the cleaned business
  name has relevance 130 when the username has at most 20 characters and 120 when it is
  longer, since a long username loses 10 points; its confidence is 0.9 in both cases.
\<close>

theorem linkedin_exact_match_relevance:
  "uname = clean_name bname \<Longrightarrow>
   calculate_relevance uname bname ''linkedin'' = (if length uname > 20 then 120 else 130) \<and>
   confidence (processed_profile str_hash bname uname ''linkedin'' pd) = 9 / 10"
  by (simp add: calculate_relevance_def processed_profile_def clean_name_def platform_priority_def
        Let_def)

theorem linkedin_exact_match_relevance_witness:
  "''acmeinc'' = clean_name ''Acme Inc'' \<and>
   calculate_relevance ''acmeinc'' ''Acme Inc'' ''linkedin'' = 130 \<and>
   confidence (processed_profile (\<lambda>url. 0) ''Acme Inc'' ''acmeinc'' ''linkedin''
      \<lparr>pd_url = ''https://www.linkedin.com/company/acmeinc'', pd_username = ''acmeinc'',
       pd_platform = ''linkedin'', pd_verified = Some True, pd_source = ''sherlock''\<rparr>) = 9 / 10"
proof -
  have h: "clean_name ''Acme Inc'' = ''acmeinc''" by code_simp
  show ?thesis
    using linkedin_exact_match_relevance [OF h [symmetric]] by (simp add: h)
qed

text \<open>
  C6 as stated fails: for the name "International Business Machines" the cleaned name has
  29 characters, and its relevance on linkedin is 120, below 130.
\<close>

theorem linkedin_long_username_counterexample:
  "clean_name ''International Business Machines'' = ''internationalbusinessmachines'' \<and>
   \<not> 130 \<le> calculate_relevance ''internationalbusinessmachines''
              ''International Business Machines'' ''linkedin''"
  by code_simp

text \<open>
  C7: whatever the hits are, \<open>process_results\<close> returns at most 20 profiles, and their
  relevance scores never increase along the list.
\<close>

theorem process_results_ranked:
  "length (process_results str_hash all_results bname) \<le> 20 \<and>
   sorted_wrt (\<lambda>p q. relevance_score p \<ge> relevance_score q)
     (process_results str_hash all_results bname)"
  unfolding process_results_def
  by (simp add: sorted_wrt_take sorted_wrt_sort_reverse)

section \<open>The cache\<close>

text \<open>Reading \<open>result.data\<close> raises, so no call of \<open>get_cached_result\<close> gives a hit.\<close>

lemma get_cached_result_none:
  "get_cached_result md5_hex now supabase query pform = (None, supabase)"
  by (cases supabase) (simp_all add: get_cached_result_def request_data_def)

text \<open>
  C10, on a table whose only row matches the hash of the query "acme" and the platform
  tag, with hit count 3 and expiration time stamp 50. The claim expects a hit with hit
  count 4 at every time. The select of \<open>get_cached_result\<close> is never executed, so the
  function returns no hit and leaves the table as it is, at time 10 and at time 100.
\<close>

theorem cache_read_never_hits:
  "query_hash example_row = generate_query_hash (\<lambda>s. s) ''acme'' ''sherlock_osint'' \<and>
   row_platform example_row = ''sherlock_osint'' \<and>
   expires_at example_row = 50 \<and>
   get_cached_result (\<lambda>s. s) 10 (Some [example_row]) ''acme'' ''sherlock_osint''
     = (None, Some [example_row]) \<and>
   get_cached_result (\<lambda>s. s) 100 (Some [example_row]) ''acme'' ''sherlock_osint''
     = (None, Some [example_row])"
proof -
  have hash: "generate_query_hash (\<lambda>s. s) ''acme'' ''sherlock_osint'' = ''acme_sherlock_os''"
    by code_simp
  show ?thesis
    by (simp add: hash get_cached_result_none) (simp add: example_row_def)
qed

section \<open>The searches\<close>





lemma update_fresh: "k \<notin> fst ` set al \<Longrightarrow> AList.update k v al = al @ [(k, v)]"
  by (induction al) auto

lemma search_usernames_found:
  "distinct unames \<Longrightarrow> set unames \<inter> fst ` set acc = {} \<Longrightarrow>
   search_usernames run platforms unames acc = acc @ found_results run platforms unames"
proof (induction unames arbitrary: acc)
  case Nil
  then show ?case by (simp add: found_results_def)
next
  case (Cons u us)
  have fresh: "u \<notin> fst ` set acc" using Cons.prems by auto
  show ?case
  proof (cases "sherlock_search run u platforms = []")
    case True
    have "set us \<inter> fst ` set acc = {}" using Cons.prems by auto
    with Cons True show ?thesis by (simp add: found_results_def)
  next
    case False
    have "set us \<inter> fst ` set (acc @ [(u, sherlock_search run u platforms)]) = {}"
      using Cons.prems by auto
    with Cons.IH [of "acc @ [(u, sherlock_search run u platforms)]"] Cons.prems False fresh
    show ?thesis by (simp add: found_results_def update_fresh)
  qed
qed











text \<open>For a query of two characters or more the handler answers with the result of the search.\<close>

lemma handler_search:
  assumes "py_strip bname = bname" and "2 \<le> length bname"
  shows "fst (handler_post iter run_fn md5_hex now supabase bname tp) =
           (200, Search_Body
              \<lparr> fr_success = True,
                fr_query = bname,
                fr_platform = ''sherlock_osint'',
                fr_results = profiles (execute_sherlock_search iter run_fn bname tp),
                fr_method = ''osint'',
                totalFound = total_profiles_found (execute_sherlock_search iter run_fn bname tp),
                searchedUsernames = searched_usernames (execute_sherlock_search iter run_fn bname tp),
                fr_source = ''sherlock'' \<rparr>)"
proof -
  have ne: "bname \<noteq> []" using assms(2) by auto
  show ?thesis
    using assms ne by (simp add: handler_post_def Let_def get_cached_result_none)
qed

lemma probe_contribution_cases:
  "run u = Completed returncode out \<Longrightarrow>
     probe_contribution run bname u = (if returncode = 0 then parse_sherlock_output out u bname else [])"
  "run u = TimeoutExpired \<Longrightarrow> probe_contribution run bname u = generate_fallback_profiles u bname"
  "run u = FileNotFoundError \<Longrightarrow> probe_contribution run bname u = generate_fallback_profiles u bname"
  by (simp_all add: probe_contribution_def)

text \<open>
  The loop adds the contribution of each username in turn, unless \<open>subprocess.run\<close>
  raises another exception for one of them: then it is left without a result.
\<close>

lemma search_loop_result:
  "search_loop run bname unames (all_profiles, searched) =
     (if list_ex (\<lambda>u. run u = Other_Exception) unames then None
      else Some (all_profiles @ concat (map (probe_contribution run bname) unames),
                 searched @ unames))"
proof (induction unames arbitrary: all_profiles searched)
  case Nil
  then show ?case by simp
next
  case (Cons u us)
  then show ?case
    by (cases "run u") (simp_all add: probe_contribution_cases)
qed

lemma execute_result:
  "execute_sherlock_search iter run_fn bname tp =
     (if list_ex (\<lambda>u. run_fn u = Other_Exception) (fn_generate_business_usernames iter bname)
      then generate_fallback_search bname tp
      else \<lparr> profiles = take 20 (concat (map (probe_contribution run_fn bname)
                                           (fn_generate_business_usernames iter bname))),
             total_profiles_found = length (concat (map (probe_contribution run_fn bname)
                                           (fn_generate_business_usernames iter bname))),
             searched_usernames = fn_generate_business_usernames iter bname \<rparr>)"
  by (simp add: execute_sherlock_search_def search_loop_result)


text \<open>
  C8, as the code has it. In the function the inner \<open>except\<close> names \<open>TimeoutExpired\<close> and
  \<open>FileNotFoundError\<close>: a username with one of them adds its six fallback profiles, a
  completed run adds nothing for a return code other than 0 and otherwise every profile
  the parser makes of the output, and the search returns the first 20 of all
  contributions. An exception of another class, for any username, reaches the outer
  \<open>except\<close>: what the loop has gathered is dropped and the search returns the six fallback
  profiles of \<open>generate_fallback_search\<close>. In both cases the handler answers 200 with
  \<open>success = True\<close>. In \<open>python/sherlock_business_search.py\<close> every exception of a probe
  is caught: the username has no hits, the hits of the others are ranked, and the result
  has \<open>success = True\<close>.
\<close>

theorem probe_failure_outcomes:
  assumes so: "set_order iter"
  shows "execute_sherlock_search iter run_fn bname tp =
           (if list_ex (\<lambda>u. run_fn u = Other_Exception) (fn_generate_business_usernames iter bname)
            then generate_fallback_search bname tp
            else \<lparr> profiles = take 20 (concat (map (probe_contribution run_fn bname)
                                           (fn_generate_business_usernames iter bname))),
                   total_profiles_found = length (concat (map (probe_contribution run_fn bname)
                                           (fn_generate_business_usernames iter bname))),
                   searched_usernames = fn_generate_business_usernames iter bname \<rparr>) \<and>
         (py_strip bname = bname \<and> 2 \<le> length bname \<longrightarrow>
          fst (handler_post iter run_fn md5_hex now supabase bname tp) =
            (200, Search_Body
               \<lparr> fr_success = True,
                 fr_query = bname,
                 fr_platform = ''sherlock_osint'',
                 fr_results = profiles (execute_sherlock_search iter run_fn bname tp),
                 fr_method = ''osint'',
                 totalFound = total_profiles_found (execute_sherlock_search iter run_fn bname tp),
                 searchedUsernames = searched_usernames (execute_sherlock_search iter run_fn bname tp),
                 fr_source = ''sherlock'' \<rparr>)) \<and>
         search_business_profiles iter str_hash run bname platforms =
           \<lparr> profiles = process_results str_hash
                          (found_results run platforms (generate_business_usernames iter bname)) bname,
             total_profiles_found = length (process_results str_hash
                          (found_results run platforms (generate_business_usernames iter bname)) bname),
             searched_usernames = generate_business_usernames iter bname,
             success = True,
             business_name = bname,
             result_search_method = ''sherlock_osint'' \<rparr>"
proof -
  have a: "search_usernames run platforms (generate_business_usernames iter bname) []
        = found_results run platforms (generate_business_usernames iter bname)"
    using search_usernames_found [OF distinct_generate [OF so], of bname "[]" run platforms] by simp
  have c: "search_business_profiles iter str_hash run bname platforms =
           \<lparr> profiles = process_results str_hash
                          (found_results run platforms (generate_business_usernames iter bname)) bname,
             total_profiles_found = length (process_results str_hash
                          (found_results run platforms (generate_business_usernames iter bname)) bname),
             searched_usernames = generate_business_usernames iter bname,
             success = True,
             business_name = bname,
             result_search_method = ''sherlock_osint'' \<rparr>"
    using a by (simp add: search_business_profiles_def Let_def)
  show ?thesis
    by (intro conjI impI) (rule execute_result, erule conjE, rule handler_search, assumption+, rule c)
qed

theorem probe_failure_outcomes_witness:
  "set_order insertion_order \<and>
   example_run_fn ''acme'' = TimeoutExpired \<and>
   example_run_fn ''acmeinc'' = Completed 1 [] \<and>
   map username (profiles (execute_sherlock_search insertion_order example_run_fn ''Acme Inc'' None))
     = [''acme'', ''acme'', ''acme'', ''acme'', ''acme'', ''acme'',
        ''acmeofficial'', ''officialacme'', ''acmeco''] \<and>
   py_strip ''Acme Inc'' = ''Acme Inc'' \<and>
   2 \<le> length ''Acme Inc'' \<and>
   fst (handler_post insertion_order example_run_fn (\<lambda>s. s) 0 None ''Acme Inc'' None) =
     (200, Search_Body
        \<lparr> fr_success = True,
          fr_query = ''Acme Inc'',
          fr_platform = ''sherlock_osint'',
          fr_results = profiles (execute_sherlock_search insertion_order example_run_fn ''Acme Inc'' None),
          fr_method = ''osint'',
          totalFound = total_profiles_found
                         (execute_sherlock_search insertion_order example_run_fn ''Acme Inc'' None),
          searchedUsernames = searched_usernames
                         (execute_sherlock_search insertion_order example_run_fn ''Acme Inc'' None),
          fr_source = ''sherlock'' \<rparr>) \<and>
   example_run ''acme_inc'' None = Raised_TimeoutExpired \<and>
   example_run ''acme.inc'' None = Raised_Exception \<and>
   success (search_business_profiles insertion_order (\<lambda>url. 0) example_run ''Acme Inc'' None) \<and>
   map username (profiles (search_business_profiles insertion_order (\<lambda>url. 0) example_run ''Acme Inc'' None))
     = [''acmeinc_official'', ''official_acmeinc'', ''acmeincofficial'', ''officialacmeinc'',
        ''acmeinc_real'', ''real_acmeinc'', ''acmeinc_team'', ''acme-inc'']"
proof -
  note t = probe_failure_outcomes [OF set_order_insertion_order,
             of example_run_fn "''Acme Inc''" None "\<lambda>s. s" 0 None "\<lambda>url. 0" example_run None]
  have e0: "\<not> list_ex (\<lambda>u. example_run_fn u = Other_Exception)
              (fn_generate_business_usernames insertion_order ''Acme Inc'')"
    by code_simp
  have e1: "map username (take 20 (concat (map (probe_contribution example_run_fn ''Acme Inc'')
                (fn_generate_business_usernames insertion_order ''Acme Inc''))))
            = [''acme'', ''acme'', ''acme'', ''acme'', ''acme'', ''acme'',
               ''acmeofficial'', ''officialacme'', ''acmeco'']"
    by code_simp
  have e2: "map username (process_results (\<lambda>url. 0)
                (found_results example_run None (generate_business_usernames insertion_order ''Acme Inc''))
                ''Acme Inc'')
            = [''acmeinc_official'', ''official_acmeinc'', ''acmeincofficial'', ''officialacmeinc'',
               ''acmeinc_real'', ''real_acmeinc'', ''acmeinc_team'', ''acme-inc'']"
    by code_simp
  have e3: "example_run_fn ''acme'' = TimeoutExpired \<and>
            example_run_fn ''acmeinc'' = Completed 1 [] \<and>
            example_run ''acme_inc'' None = Raised_TimeoutExpired \<and>
            example_run ''acme.inc'' None = Raised_Exception"
    by (simp add: example_run_fn_def example_run_def)
  have p1: "py_strip ''Acme Inc'' = ''Acme Inc''" by code_simp
  have p2: "2 \<le> length ''Acme Inc''" by simp
  have k1: "map username (profiles (execute_sherlock_search insertion_order example_run_fn ''Acme Inc'' None))
     = [''acme'', ''acme'', ''acme'', ''acme'', ''acme'', ''acme'',
        ''acmeofficial'', ''officialacme'', ''acmeco'']"
    using e0 e1 by (simp add: conjunct1 [OF t])
  have k2: "fst (handler_post insertion_order example_run_fn (\<lambda>s. s) 0 None ''Acme Inc'' None) =
     (200, Search_Body
        \<lparr> fr_success = True,
          fr_query = ''Acme Inc'',
          fr_platform = ''sherlock_osint'',
          fr_results = profiles (execute_sherlock_search insertion_order example_run_fn ''Acme Inc'' None),
          fr_method = ''osint'',
          totalFound = total_profiles_found
                         (execute_sherlock_search insertion_order example_run_fn ''Acme Inc'' None),
          searchedUsernames = searched_usernames
                         (execute_sherlock_search insertion_order example_run_fn ''Acme Inc'' None),
          fr_source = ''sherlock'' \<rparr>)"
    by (rule mp [OF conjunct1 [OF conjunct2 [OF t]]]) (intro conjI, rule p1, rule p2)
  have k3: "success (search_business_profiles insertion_order (\<lambda>url. 0) example_run ''Acme Inc'' None)"
    by (simp add: conjunct2 [OF conjunct2 [OF t]])
  have k4: "map username (profiles (search_business_profiles insertion_order (\<lambda>url. 0) example_run ''Acme Inc'' None))
     = [''acmeinc_official'', ''official_acmeinc'', ''acmeincofficial'', ''officialacmeinc'',
        ''acmeinc_real'', ''real_acmeinc'', ''acmeinc_team'', ''acme-inc'']"
    using e2 by (simp add: conjunct2 [OF conjunct2 [OF t]])
  show ?thesis
    using set_order_insertion_order e3 k1 p1 p2 k2 k3 k4 by blast
qed

text \<open>
  C8 as stated fails in the function. For "test company" the fifth username is "testco";
  when \<open>subprocess.run\<close> raises another exception for it, the hits of the four usernames
  before it are dropped and six fallback profiles of "testcompany" are returned. And a
  line of output that is no hit, such as an error message, becomes a profile: the
  username adds neither nothing nor its fallback profiles.
\<close>

theorem probe_abort_counterexample:
  "fn_generate_business_usernames insertion_order ''test company''
     = [''test'', ''testofficial'', ''officialtest'', ''testinc'', ''testco''] \<and>
   example_run_abort ''testco'' = Other_Exception \<and>
   map username (parse_sherlock_output ''[+] Instagram: https://instagram.com/test'' ''test'' ''test company'')
     = [''test''] \<and>
   map username (profiles (execute_sherlock_search insertion_order example_run_abort ''test company'' None))
     = [''testcompany'', ''testcompany'', ''testcompany'', ''testcompany'', ''testcompany'', ''testcompany''] \<and>
   searched_usernames (execute_sherlock_search insertion_order example_run_abort ''test company'' None)
     = [''testcompany''] \<and>
   map platform (parse_sherlock_output ''[+] Error: http connection failed'' ''test'' ''test company'')
     = [''error''] \<and>
   map profile_url (parse_sherlock_output ''[+] Error: http connection failed'' ''test'' ''test company'')
     = [''http connection failed'']"
  by code_simp

text \<open>The two loops of \<open>process_results\<close> are one fold over the hits.\<close>

lemma process_profiles_fold:
  "process_profiles str_hash bname uname profs st
   = fold (fold_step str_hash bname) (map (\<lambda>(pform, pd). (uname, pform, pd)) profs) st"
proof (induction profs arbitrary: st)
  case Nil
  then show ?case by simp
next
  case (Cons a profs)
  obtain pform pd where a: "a = (pform, pd)" by (cases a)
  obtain processed seen where st: "st = (processed, seen)" by (cases st)
  show ?case
    unfolding a st using Cons.IH by (simp add: fold_step_def hit_url_def)
qed

lemma process_usernames_fold:
  "process_usernames str_hash bname all_results st
   = fold (fold_step str_hash bname) (result_hits all_results) st"
proof (induction all_results arbitrary: st)
  case Nil
  then show ?case by (simp add: result_hits_def)
next
  case (Cons a rest)
  obtain uname profs where a: "a = (uname, profs)" by (cases a)
  show ?case
    unfolding a using Cons.IH
    by (simp add: result_hits_def process_profiles_fold)
qed

lemma fold_step_first_by_url:
  "fold (fold_step str_hash bname) hits (acc, seen)
   = (acc @ map (\<lambda>(uname, pform, pd). processed_profile str_hash bname uname pform pd)
              (filter (\<lambda>h. hit_url h \<notin> seen) (first_by_url hits)),
      seen \<union> hit_url ` set hits)"
proof (induction hits arbitrary: acc seen)
  case Nil
  then show ?case by simp
next
  case (Cons h hs)
  show ?case
  proof (cases "hit_url h \<in> seen")
    case True
    have "filter (\<lambda>h'. hit_url h' \<notin> seen) (filter (\<lambda>h'. hit_url h' \<noteq> hit_url h) (first_by_url hs))
          = filter (\<lambda>h'. hit_url h' \<notin> seen) (first_by_url hs)"
      using True by (auto intro: filter_cong)
    with True Cons.IH [of acc seen] show ?thesis
      by (auto simp: fold_step_def)
  next
    case False
    have "filter (\<lambda>h'. hit_url h' \<notin> insert (hit_url h) seen) (first_by_url hs)
          = filter (\<lambda>h'. hit_url h' \<notin> seen) (filter (\<lambda>h'. hit_url h' \<noteq> hit_url h) (first_by_url hs))"
      by (auto intro: filter_cong)
    with False Cons.IH [of "acc @ [processed_profile str_hash bname (fst h) (fst (snd h)) (snd (snd h))]"
                           "insert (hit_url h) seen"]
    show ?thesis
      by (auto simp: fold_step_def split_beta)
  qed
qed

lemma materialized_first_by_url:
  "fst (process_usernames str_hash bname all_results ([], {}))
   = map (\<lambda>(uname, pform, pd). processed_profile str_hash bname uname pform pd)
       (first_by_url (result_hits all_results))"
  by (simp add: process_usernames_fold fold_step_first_by_url)

lemma set_first_by_url: "set (first_by_url hits) \<subseteq> set hits"
  by (induction hits) auto

lemma distinct_first_by_url: "distinct (map hit_url (first_by_url hits))"
proof (induction hits)
  case Nil
  then show ?case by simp
next
  case (Cons h hs)
  then show ?case by (auto simp: distinct_map_filter)
qed

lemma profile_url_processed:
  "map profile_url (map (\<lambda>(uname, pform, pd). processed_profile str_hash bname uname pform pd) hits)
   = map hit_url hits"
  by (induction hits) (auto simp: processed_profile_def hit_url_def Let_def)

lemma distinct_map_sort_reverse:
  "distinct (map f xs) \<Longrightarrow> distinct (map f (sort_reverse key xs))"
  by (simp add: sort_reverse_def distinct_map rev_map [symmetric])

lemma distinct_map_take: "distinct (map f xs) \<Longrightarrow> distinct (map f (take n xs))"
  by (simp add: take_map [symmetric] distinct_take)

text \<open>
  C3, as the code has it. \<open>process_results\<close> compares the URL strings as they are: a hit
  becomes a profile when no earlier hit has the same URL string, so the first occurrence
  wins, the profiles returned have pairwise different URLs, and two hits with one URL
  give one profile, that of the first hit.
\<close>

theorem dedup_by_exact_url:
  "fst (process_usernames str_hash bname all_results ([], {}))
     = map (\<lambda>(uname, pform, pd). processed_profile str_hash bname uname pform pd)
         (first_by_url (result_hits all_results)) \<and>
   distinct (map profile_url (process_results str_hash all_results bname)) \<and>
   (pd_url pd1 = pd_url pd2 \<longrightarrow>
      process_results str_hash [(u1, [(pf1, pd1)]), (u2, [(pf2, pd2)])] bname
        = [processed_profile str_hash bname u1 pf1 pd1])"
proof -
  have d: "distinct (map profile_url (fst (process_usernames str_hash bname all_results ([], {}))))"
    unfolding materialized_first_by_url profile_url_processed by (rule distinct_first_by_url)
  have two: "pd_url pd1 = pd_url pd2 \<longrightarrow>
      process_results str_hash [(u1, [(pf1, pd1)]), (u2, [(pf2, pd2)])] bname
        = [processed_profile str_hash bname u1 pf1 pd1]"
    by (simp add: process_results_def sort_reverse_def)
  show ?thesis
    using d two
    by (simp add: materialized_first_by_url process_results_def distinct_map_take distinct_map_sort_reverse)
qed

theorem dedup_by_exact_url_witness:
  "pd_url (example_hit ''https://instagram.com/acme'' ''acme'')
     = pd_url (example_hit ''https://instagram.com/acme'' ''acmehq'') \<and>
   process_results (\<lambda>url. 0) same_url_results ''Acme''
     = [processed_profile (\<lambda>url. 0) ''Acme'' ''acme'' ''instagram''
          (example_hit ''https://instagram.com/acme'' ''acme'')] \<and>
   map username (process_results (\<lambda>url. 0) same_url_results ''Acme'') = [''acme'']"
proof -
  have h: "pd_url (example_hit ''https://instagram.com/acme'' ''acme'')
           = pd_url (example_hit ''https://instagram.com/acme'' ''acmehq'')"
    by (simp add: example_hit_def)
  note t = dedup_by_exact_url [of "\<lambda>url. 0" "''Acme''" "[]"
            "example_hit ''https://instagram.com/acme'' ''acme''"
            "example_hit ''https://instagram.com/acme'' ''acmehq''"
            "''acme''" "''instagram''" "''acmehq''" "''instagram''"]
  have r: "process_results (\<lambda>url. 0) same_url_results ''Acme''
     = [processed_profile (\<lambda>url. 0) ''Acme'' ''acme'' ''instagram''
          (example_hit ''https://instagram.com/acme'' ''acme'')]"
    unfolding same_url_results_def by (rule mp [OF conjunct2 [OF conjunct2 [OF t]] h])
  have u: "map username (process_results (\<lambda>url. 0) same_url_results ''Acme'') = [''acme'']"
    unfolding r by (simp add: processed_profile_def Let_def)
  show ?thesis
    by (intro conjI) (rule h, rule r, rule u)
qed

text \<open>
  C3 as stated fails: two hits whose URLs differ in the case of the domain only both
  become profiles.
\<close>

theorem case_variant_counterexample:
  "py_lower ''https://Instagram.com/acme'' = py_lower ''https://instagram.com/acme'' \<and>
   map profile_url (process_results (\<lambda>url. 0) case_variant_results ''Acme'')
     = [''https://Instagram.com/acme'', ''https://instagram.com/acme'']"
  by code_simp

end
